theory Spec2Isabelle
  imports Complex_Main "HOL-Library.Sublist" "HOL-Library.Multiset"
begin

section \<open>Strings\<close>

text \<open>
  A JavaScript string is a sequence of UTF-16 code units. The model covers the strings
  whose code units lie below U+0100: a \<^typ>\<open>char\<close> is the code unit with that number.
  On this range \<open>String.prototype.toLowerCase\<close> maps A..Z and the Latin-1 capitals
  U+00C0..U+00DE (the multiplication sign U+00D7 apart) to the code unit 32 above, and
  \<open>String.prototype.trim\<close> removes the code units 9..13, 32 and 160 from both ends.
\<close>

definition toLowerCase_char :: "char \<Rightarrow> char" where
  "toLowerCase_char c =
     (let n = (of_char c :: nat)
      in if (65 \<le> n \<and> n \<le> 90) \<or> (192 \<le> n \<and> n \<le> 222 \<and> n \<noteq> 215)
         then char_of (n + 32) else c)"

definition toLowerCase :: "string \<Rightarrow> string" where
  "toLowerCase s = map toLowerCase_char s"

definition isWhiteSpace :: "char \<Rightarrow> bool" where
  "isWhiteSpace c =
     (let n = (of_char c :: nat)
      in (9 \<le> n \<and> n \<le> 13) \<or> n = 32 \<or> n = 160)"

definition trim :: "string \<Rightarrow> string" where
  "trim s = rev (dropWhile isWhiteSpace (rev (dropWhile isWhiteSpace s)))"

text \<open>\<open>hay.includes(needle)\<close> on strings: \<open>needle\<close> occurs in \<open>hay\<close> at some position.\<close>

fun includes_str :: "string \<Rightarrow> string \<Rightarrow> bool" where
  "includes_str [] needle = (needle = [])"
| "includes_str (c # cs) needle = (prefix needle (c # cs) \<or> includes_str cs needle)"

text \<open>\<open>arr.includes(x)\<close> on an array of strings: some element equals \<open>x\<close>.\<close>

definition includes_arr :: "string list \<Rightarrow> string \<Rightarrow> bool" where
  "includes_arr arr x = (x \<in> set arr)"

text \<open>\<open>(v || '')\<close> on an optional string: \<open>null\<close> and \<open>undefined\<close> become the empty string.\<close>

definition or_empty :: "string option \<Rightarrow> string" where
  "or_empty v = (case v of None \<Rightarrow> [] | Some s \<Rightarrow> s)"

section \<open>Products\<close>

text \<open>
  A row of the \<open>products\<close> table as \<open>db.selectAll()\<close> delivers it. A column that is
  \<open>null\<close> is \<open>None\<close>. The TIMESTAMPTZ columns arrive as ISO-8601 strings; a field holds
  the time value (milliseconds since the epoch) that \<open>new Date(field)\<close> has. The DECIMAL
  column \<open>price\<close> is a JavaScript number, idealised as a rational: rounding of doubles
  is outside the model. \<open>image_url\<close> is the single-image column of older rows and
  \<open>click_count\<close> the counter of the click-tracking variant.
\<close>

record product =
  product_id :: string
  title :: "string option"
  description :: "string option"
  price :: "rat option"
  image_urls :: "string list option"
  image_url :: "string option"
  categories :: "string list option"
  is_featured :: bool
  admin_notes :: "string option"
  discount_percent :: "int option"
  promotion_start :: "int option"
  promotion_end :: "int option"
  created_at :: "int option"
  click_count :: "nat option"

text \<open>One day in milliseconds.\<close>

definition day :: int where
  "day = 86400000"

section \<open>Filter and render products\<close>

text \<open>
  The callback of the category filter in \<open>filterProducts\<close>: the product has a
  \<open>categories\<close> array and every selected category is one of its elements.
\<close>

definition has_all_selected :: "string list \<Rightarrow> product \<Rightarrow> bool" where
  "has_all_selected selectedCategories p =
     (case categories p of
        None \<Rightarrow> False
      | Some cats \<Rightarrow> list_all (\<lambda>cat. includes_arr cats cat) selectedCategories)"

text \<open>The callback of the search filter in \<open>filterProducts\<close>.\<close>

definition matches_search :: "string \<Rightarrow> product \<Rightarrow> bool" where
  "matches_search searchTerm p =
     (let title_lc = toLowerCase (or_empty (title p));
          description_lc = toLowerCase (or_empty (description p))
      in includes_str title_lc searchTerm \<or> includes_str description_lc searchTerm)"

text \<open>
  \<open>filterProducts\<close> reads the globals \<open>allProducts\<close> and \<open>selectedCategories\<close>
  (\<open>Array.from\<close> of the set, in insertion order) and the value of the search box; the
  result is the list it hands to \<open>renderProducts\<close>.
\<close>

definition filterProducts :: "product list \<Rightarrow> string list \<Rightarrow> string \<Rightarrow> product list" where
  "filterProducts allProducts selectedCategories searchInput =
     (let searchTerm = trim (toLowerCase searchInput);
          filtered = allProducts;
          filtered = (if length selectedCategories > 0
                      then filter (has_all_selected selectedCategories) filtered
                      else filtered);
          filtered = (if searchTerm \<noteq> []
                      then filter (matches_search searchTerm) filtered
                      else filtered)
      in filtered)"

subsection \<open>The filter as the specification words it\<close>

definition category_set :: "product \<Rightarrow> string set" where
  "category_set p = (case categories p of None \<Rightarrow> {} | Some cats \<Rightarrow> set cats)"

text \<open>
  \<open>s\<close> is a case-insensitive substring of \<open>t\<close>: the lower-cased \<open>s\<close> occurs as a
  contiguous block of the lower-cased \<open>t\<close>.
\<close>

definition ci_substring :: "string \<Rightarrow> string \<Rightarrow> bool" where
  "ci_substring s t = sublist (toLowerCase s) (toLowerCase t)"

definition passes :: "string set \<Rightarrow> string \<Rightarrow> product \<Rightarrow> bool" where
  "passes C s p =
     ((C = {} \<or> C \<subseteq> category_set p) \<and>
      (trim s = [] \<or> ci_substring (trim s) (or_empty (title p))
                   \<or> ci_substring (trim s) (or_empty (description p))))"

section \<open>Promotions\<close>

text \<open>
  \<open>hasActivePromotion\<close> reads the clock with \<open>new Date()\<close>; the model takes the time
  value \<open>now\<close> as an argument. \<open>!product.discount_percent\<close> holds for \<open>null\<close> and for
  \<open>0\<close>, \<open>!product.promotion_end\<close> for \<open>null\<close>, and a missing \<open>promotion_start\<close> is
  replaced by \<open>new Date(0)\<close>, the epoch.
\<close>

definition hasActivePromotion :: "int \<Rightarrow> product \<Rightarrow> bool" where
  "hasActivePromotion now p =
     (case discount_percent p of
        None \<Rightarrow> False
      | Some d \<Rightarrow>
          if d = 0 \<or> d \<le> 0 then False
          else (case promotion_end p of
                  None \<Rightarrow> False
                | Some end_time \<Rightarrow>
                    let start_time = (case promotion_start p of None \<Rightarrow> 0 | Some s \<Rightarrow> s)
                    in now \<ge> start_time \<and> now \<le> end_time))"

text \<open>
  \<open>getDiscountedPrice\<close>: \<open>!product.price\<close> holds for \<open>null\<close> and for \<open>0\<close>. The last
  case is never reached: an active promotion has a discount.
\<close>

definition getDiscountedPrice :: "int \<Rightarrow> product \<Rightarrow> rat option" where
  "getDiscountedPrice now p =
     (case price p of
        None \<Rightarrow> None
      | Some pr \<Rightarrow>
          if pr = 0 \<or> \<not> hasActivePromotion now p then None
          else (case discount_percent p of
                  Some d \<Rightarrow> Some (pr * (1 - of_int d / 100))
                | None \<Rightarrow> None))"

section \<open>Media of a product\<close>

definition placeholder :: string where
  "placeholder = ''https://via.placeholder.com/400x400?text=No+Image''"

text \<open>
  \<open>getProductMedia\<close> (the refactored variant): \<open>image_urls\<close> when it is an array with
  at least one element, else the one-element array of a truthy \<open>image_url\<close> (not
  \<open>null\<close>, not the empty string), else the empty array.
\<close>

definition getProductMedia :: "product \<Rightarrow> string list" where
  "getProductMedia p =
     (case image_urls p of
        Some (u # us) \<Rightarrow> u # us
      | _ \<Rightarrow> (case image_url p of
                Some u \<Rightarrow> if u \<noteq> [] then [u] else []
              | None \<Rightarrow> []))"

text \<open>
  The local \<open>images\<close> of \<open>renderProductCard\<close> and \<open>openProductModal\<close> (main and
  click-tracking variants), a conditional expression written out at each place.
\<close>

definition product_images :: "product \<Rightarrow> string list" where
  "product_images p =
     (if (case image_urls p of None \<Rightarrow> False | Some us \<Rightarrow> length us > 0)
      then (case image_urls p of Some us \<Rightarrow> us | None \<Rightarrow> [])
      else (case image_url p of
              None \<Rightarrow> []
            | Some u \<Rightarrow> if u \<noteq> [] then [u] else []))"

text \<open>\<open>images.length > 0 ? images[0] : placeholder\<close>.\<close>

definition first_or_placeholder :: "string list \<Rightarrow> string" where
  "first_or_placeholder images = (case images of [] \<Rightarrow> placeholder | u # _ \<Rightarrow> u)"

text \<open>
  \<open>media[0] || placeholder\<close> of the refactored \<open>openProductModal\<close>: the placeholder also
  stands in for an empty first element.
\<close>

definition modal_mainMedia :: "product \<Rightarrow> string" where
  "modal_mainMedia p =
     (case getProductMedia p of
        [] \<Rightarrow> placeholder
      | u # _ \<Rightarrow> if u \<noteq> [] then u else placeholder)"

text \<open>The video test of the main variant, and the one of the click-tracking variant.\<close>

definition isVideo :: "string \<Rightarrow> bool" where
  "isVideo src =
     (includes_str src ''/video/'' \<or> includes_str src ''.mp4'' \<or> includes_str src ''.webm'')"

definition isVideo_tracking :: "string \<Rightarrow> bool" where
  "isVideo_tracking src = (includes_str src ''.mp4'' \<or> includes_str src ''.webm'')"

section \<open>Product cards\<close>

text \<open>
  The markup a card or the modal shows for the price: nothing, the price, or the
  original price with the discounted one. \<open>toFixed(2)\<close> formatting is left out.
\<close>

datatype price_html = NoPrice | Price rat | SalePrice rat rat

definition priceHtml :: "int \<Rightarrow> product \<Rightarrow> price_html" where
  "priceHtml now p =
     (case price p of
        None \<Rightarrow> NoPrice
      | Some pr \<Rightarrow>
          if pr = 0 then NoPrice
          else (case getDiscountedPrice now p of
                  Some discountedPrice \<Rightarrow>
                    if hasActivePromotion now p then SalePrice pr discountedPrice else Price pr
                | None \<Rightarrow> Price pr))"

text \<open>The data a card's markup is built from, field by field.\<close>

record card =
  card_product_id :: string
  card_compact :: bool
  card_on_sale :: bool
  card_main_image :: string
  card_is_video :: bool
  card_image_count_badge :: "nat option"
  card_sale_badge :: "int option"
  card_title :: string
  card_price :: price_html

definition renderProductCard :: "int \<Rightarrow> product \<Rightarrow> bool \<Rightarrow> card" where
  "renderProductCard now p compact_flag =
     (let images = product_images p;
          mainImage = first_or_placeholder images;
          isOnSale = hasActivePromotion now p
      in \<lparr>card_product_id = product_id p,
          card_compact = compact_flag,
          card_on_sale = isOnSale,
          card_main_image = mainImage,
          card_is_video = isVideo mainImage,
          card_image_count_badge = (if length images > 1 then Some (length images) else None),
          card_sale_badge = (if isOnSale then discount_percent p else None),
          card_title = or_empty (title p),
          card_price = priceHtml now p\<rparr>)"

section \<open>The product modal\<close>

text \<open>
  A gallery thumbnail carries the arguments its \<open>onclick\<close> attribute passes to
  \<open>changeModalMedia\<close> and whether it has the class \<open>active\<close>.
\<close>

record thumb =
  thumb_src :: string
  thumb_is_video :: bool
  thumb_active :: bool

text \<open>
  The content of \<open>modalBody\<close>: the element \<open>modalMainMedia\<close>, the gallery (empty when
  the markup has none) and the data of the info column. \<open>modal_views\<close> is the view
  counter line of the click-tracking variant.
\<close>

record modal_body =
  main_src :: string
  main_is_video :: bool
  gallery :: "thumb list"
  modal_title :: string
  modal_price :: price_html
  modal_description :: "string option"
  modal_categories :: "string list"
  modal_notes :: "string option"
  modal_views :: "nat option"

text \<open>
  The module's mutable state: the global \<open>allProducts\<close>, the content of \<open>modalBody\<close>
  (\<open>None\<close> before the first product is opened), the class \<open>active\<close> of \<open>productModal\<close>
  and \<open>document.body.style.overflow\<close>. For the click-tracking variant: the increment
  requests sent and not yet answered, and the lines written by \<open>console.log\<close>.
\<close>

record state =
  allProducts :: "product list"
  modalBody :: "modal_body option"
  modal_active :: bool
  body_overflow :: string
  in_flight :: "string list"
  console :: "string list"


text \<open>\<open>allProducts.find(p => p.id === productId)\<close>: the first product with that id.\<close>

definition find_product :: "string \<Rightarrow> product list \<Rightarrow> product option" where
  "find_product productId ps = find (\<lambda>p. product_id p = productId) ps"

text \<open>A truthy optional string: present and not empty.\<close>

definition truthy :: "string option \<Rightarrow> string option" where
  "truthy v = (case v of None \<Rightarrow> None | Some s \<Rightarrow> if s \<noteq> [] then Some s else None)"

text \<open>The gallery markup: one thumbnail per media item, the first one active.\<close>

definition galleryHtml :: "(string \<Rightarrow> bool) \<Rightarrow> string list \<Rightarrow> thumb list" where
  "galleryHtml isVid images =
     (if length images > 1
      then map (\<lambda>(idx, img). \<lparr>thumb_src = img, thumb_is_video = isVid img,
                              thumb_active = (idx = 0)\<rparr>)
               (enumerate 0 images)
      else [])"

text \<open>\<open>openProductModal\<close> of the main variant.\<close>

definition openProductModal :: "int \<Rightarrow> string \<Rightarrow> state \<Rightarrow> state" where
  "openProductModal now productId st =
     (case find_product productId (allProducts st) of
        None \<Rightarrow> st
      | Some product \<Rightarrow>
          let images = product_images product;
              mainMedia = first_or_placeholder images
          in st\<lparr>modalBody := Some
                  \<lparr>main_src = mainMedia,
                   main_is_video = isVideo mainMedia,
                   gallery = galleryHtml isVideo images,
                   modal_title = or_empty (title product),
                   modal_price = priceHtml now product,
                   modal_description = truthy (description product),
                   modal_categories = (case categories product of None \<Rightarrow> [] | Some cs \<Rightarrow> cs),
                   modal_notes = truthy (admin_notes product),
                   modal_views = None\<rparr>,
                modal_active := True,
                body_overflow := ''hidden''\<rparr>)"






section \<open>Click tracking\<close>

text \<open>
  \<open>trackProductClick\<close> is an async function. Up to its \<open>await\<close> it sends the increment
  request; it resumes when \<open>fetch\<close> settles: with a response, whatever its status, or
  with a rejection (the request never completed).
\<close>

datatype fetch_result = Response nat | Rejected string

definition trackProductClick_send :: "string \<Rightarrow> state \<Rightarrow> state" where
  "trackProductClick_send productId st = st\<lparr>in_flight := in_flight st @ [productId]\<rparr>"

text \<open>
  \<open>product.click_count = (product.click_count || 0) + 1\<close> on the object that \<open>find\<close>
  returns: the first product with that id, changed in place in \<open>allProducts\<close>.
\<close>

fun increment_click :: "string \<Rightarrow> product list \<Rightarrow> product list" where
  "increment_click productId [] = []"
| "increment_click productId (p # ps) =
     (if product_id p = productId
      then p\<lparr>click_count := Some ((case click_count p of None \<Rightarrow> 0 | Some c \<Rightarrow> c) + 1)\<rparr> # ps
      else p # increment_click productId ps)"

definition trackProductClick_resume :: "string \<Rightarrow> fetch_result \<Rightarrow> state \<Rightarrow> state" where
  "trackProductClick_resume productId r st =
     (let st1 = st\<lparr>in_flight := remove1 productId (in_flight st)\<rparr>
      in case r of
           Response status \<Rightarrow> st1\<lparr>allProducts := increment_click productId (allProducts st1)\<rparr>
         | Rejected err \<Rightarrow>
             st1\<lparr>console := console st1 @ [''Click tracking failed (not critical): '' @ err]\<rparr>)"

text \<open>\<open>openProductModal\<close> of the click-tracking variant: no promotions, a view counter.\<close>

definition openProductModal_tracking :: "string \<Rightarrow> state \<Rightarrow> state" where
  "openProductModal_tracking productId st =
     (case find_product productId (allProducts st) of
        None \<Rightarrow> st
      | Some product \<Rightarrow>
          let st1 = trackProductClick_send productId st;
              images = product_images product;
              mainMedia = first_or_placeholder images
          in st1\<lparr>modalBody := Some
                   \<lparr>main_src = mainMedia,
                    main_is_video = isVideo_tracking mainMedia,
                    gallery = galleryHtml isVideo_tracking images,
                    modal_title = or_empty (title product),
                    modal_price = (case price product of
                                     None \<Rightarrow> NoPrice
                                   | Some pr \<Rightarrow> if pr = 0 then NoPrice else Price pr),
                    modal_description = truthy (description product),
                    modal_categories = (case categories product of None \<Rightarrow> [] | Some cs \<Rightarrow> cs),
                    modal_notes = truthy (admin_notes product),
                    modal_views = Some (case click_count product of None \<Rightarrow> 0 | Some c \<Rightarrow> c)\<rparr>,
                 modal_active := True,
                 body_overflow := ''hidden''\<rparr>)"

section \<open>The Recent section\<close>







subsection \<open>The Recent section as the specification words it\<close>




section \<open>Category counts\<close>

text \<open>
  The object \<open>categoryCounts\<close> as the list of its own properties in creation order.
  \<open>categoryCounts[cat] = (categoryCounts[cat] || 0) + 1\<close> adds one to the property
  \<open>cat\<close>, or creates it with the value 1 after all others.
\<close>

fun count_category :: "(string \<times> nat) list \<Rightarrow> string \<Rightarrow> (string \<times> nat) list" where
  "count_category [] cat = [(cat, 1)]"
| "count_category ((k, n) # kvs) cat =
     (if k = cat then (k, n + 1) # kvs else (k, n) # count_category kvs cat)"

text \<open>The two nested \<open>forEach\<close> loops of \<open>loadCategories\<close>; a product without a
  \<open>categories\<close> array is skipped.\<close>

definition categoryCounts :: "product list \<Rightarrow> (string \<times> nat) list" where
  "categoryCounts products =
     foldl (\<lambda>counts p. case categories p of
                          None \<Rightarrow> counts
                        | Some cats \<Rightarrow> foldl count_category counts cats)
           [] products"

text \<open>
  The property names every plain object inherits from \<open>Object.prototype\<close>. For such a
  label the read \<open>categoryCounts[cat]\<close> finds the inherited value, not \<open>undefined\<close>.
\<close>

definition Object_prototype_keys :: "string list" where
  "Object_prototype_keys =
     [''constructor'', ''hasOwnProperty'', ''isPrototypeOf'', ''propertyIsEnumerable'',
      ''toLocaleString'', ''toString'', ''valueOf'', ''__proto__'', ''__defineGetter__'',
      ''__defineSetter__'', ''__lookupGetter__'', ''__lookupSetter__'']"

text \<open>
  An array index is the canonical decimal numeral of an integer from 0 to
  \<open>2^32 - 2\<close>: digits only, no leading zero but for \<open>0\<close> itself.
\<close>

definition is_digit :: "char \<Rightarrow> bool" where
  "is_digit c = (48 \<le> (of_char c :: int) \<and> (of_char c :: int) \<le> 57)"

definition index_value :: "string \<Rightarrow> int" where
  "index_value k = foldl (\<lambda>n c. 10 * n + (of_char c - 48)) 0 k"

definition is_array_index :: "string \<Rightarrow> bool" where
  "is_array_index k =
     (case k of
        [] \<Rightarrow> False
      | c # cs \<Rightarrow> list_all is_digit k \<and> (c \<noteq> CHR ''0'' \<or> cs = []) \<and>
                 index_value k \<le> 4294967294)"

text \<open>
  \<open>Object.entries\<close> lists the own properties of an object: first those whose name is
  an array index, in ascending numeric order, then the others in creation order.
\<close>

definition Object_entries :: "(string \<times> nat) list \<Rightarrow> (string \<times> nat) list" where
  "Object_entries obj =
     sort_key (\<lambda>(k, v). index_value k) (filter (\<lambda>(k, v). is_array_index k) obj)
     @ filter (\<lambda>(k, v). \<not> is_array_index k) obj"

text \<open>Every category label of every product, in collection order.\<close>

definition all_labels :: "product list \<Rightarrow> string list" where
  "all_labels products =
     concat (map (\<lambda>p. case categories p of None \<Rightarrow> [] | Some cats \<Rightarrow> cats) products)"

text \<open>
  \<open>loadCategories\<close> up to the assignment of \<open>allCategoriesWithCounts\<close>; an entry
  \<open>{name, count}\<close> is the pair of the two. The comparator \<open>b.count - a.count\<close> of the
  stable \<open>sort\<close> puts the larger count first: a stable sort by ascending negated count.
  The result is \<open>None\<close> where a label is an inherited property name: the value stored
  for it is not a number, the comparator yields \<open>NaN\<close> and the order \<open>sort\<close> leaves is
  implementation-defined (for \<open>__proto__\<close> nothing is stored at all).
\<close>

definition loadCategories :: "product list \<Rightarrow> (string \<times> nat) list option" where
  "loadCategories products =
     (if list_ex (\<lambda>label. label \<in> set Object_prototype_keys) (all_labels products) then None
      else Some (sort_key (\<lambda>(name, n). - int n) (Object_entries (categoryCounts products))))"

subsection \<open>Label orders as the specification words them\<close>

text \<open>The distinct labels in the order of their first occurrence.\<close>

definition first_seen :: "string list \<Rightarrow> string list" where
  "first_seen labels = foldl (\<lambda>seen l. if l \<in> set seen then seen else seen @ [l]) [] labels"

text \<open>Array-index labels first, ascending by number, then the others as they come.\<close>

definition key_order :: "string list \<Rightarrow> string list" where
  "key_order ks = sort_key index_value (filter is_array_index ks) @ filter (\<lambda>k. \<not> is_array_index k) ks"

section \<open>Sample rows\<close>

text \<open>A row with every nullable column \<open>null\<close>, the base of the concrete rows below.\<close>

definition blank :: "string \<Rightarrow> product" where
  "blank i =
     \<lparr>product_id = i, title = None, description = None, price = None, image_urls = None,
      image_url = None, categories = None, is_featured = False, admin_notes = None,
      discount_percent = None,
      promotion_start = None, promotion_end = None, created_at = None, click_count = None\<rparr>"

text \<open>A shop with one product that has two media items, the modal never opened.\<close>

definition two_media :: product where
  "two_media = blank ''x''\<lparr>image_urls := Some [''a.jpg'', ''b.jpg'']\<rparr>"

definition shop1 :: state where
  "shop1 =
     \<lparr>allProducts = [two_media],
      modalBody = None, modal_active = False, body_overflow = [], in_flight = [],
      console = []\<rparr>"






text \<open>Three products with plain labels, and two whose labels tie, one of them an array index.\<close>

definition tagged :: "product list" where
  "tagged =
     [blank ''a''\<lparr>categories := Some [''toys'', ''sale'']\<rparr>,
      blank ''b''\<lparr>categories := Some [''sale'', ''books'']\<rparr>,
      blank ''c''\<lparr>categories := None\<rparr>]"

definition numbered :: "product list" where
  "numbered =
     [blank ''a''\<lparr>categories := Some [''b'']\<rparr>, blank ''b''\<lparr>categories := Some [''1'']\<rparr>]"


section \<open>Properties of the filter\<close>

lemma includes_str_sublist: "includes_str hay needle = sublist needle hay"
proof (induction hay)
  case Nil
  then show ?case by auto
next
  case (Cons c cs)
  then show ?case by (simp add: sublist_Cons_right)
qed

lemma isWhiteSpace_toLowerCase_char: "isWhiteSpace (toLowerCase_char c) = isWhiteSpace c"
proof -
  have "of_char c < (256 :: nat)" by simp
  then show ?thesis
    unfolding isWhiteSpace_def toLowerCase_char_def Let_def
    by auto
qed

lemma dropWhile_toLowerCase:
  "dropWhile isWhiteSpace (toLowerCase s) = toLowerCase (dropWhile isWhiteSpace s)"
  by (induction s) (simp_all add: toLowerCase_def isWhiteSpace_toLowerCase_char)

lemma trim_toLowerCase: "trim (toLowerCase s) = toLowerCase (trim s)"
proof -
  have rev_lc: "rev (toLowerCase u) = toLowerCase (rev u)" for u
    by (simp add: toLowerCase_def rev_map)
  show ?thesis
    by (simp add: trim_def dropWhile_toLowerCase rev_lc)
qed

lemma toLowerCase_Nil_iff: "toLowerCase s = [] \<longleftrightarrow> s = []"
  by (simp add: toLowerCase_def)

lemma has_all_selected_subset:
  "has_all_selected sel p \<longleftrightarrow> categories p \<noteq> None \<and> set sel \<subseteq> category_set p"
  by (auto simp: has_all_selected_def category_set_def includes_arr_def list_all_iff
           split: option.splits)

lemma matches_search_ci:
  "matches_search (toLowerCase u) p \<longleftrightarrow>
     ci_substring u (or_empty (title p)) \<or> ci_substring u (or_empty (description p))"
  by (simp add: matches_search_def ci_substring_def includes_str_sublist)

text \<open>
  Claim C1. For every product list, every selection of required categories and every
  search string, \<open>filterProducts\<close> returns exactly the products that pass, in their
  input order: a product passes when the selection is empty or its category set holds
  every selected label, and the search string trims to empty or is, trimmed, a
  case-insensitive substring of the title or of the description. With no category and an
  empty search string the result is the whole list.
\<close>

theorem filterProducts_visible:
  "filterProducts P C s = filter (passes (set C) s) P \<and> filterProducts P [] [] = P"
proof
  have cat: "(if length C > 0 then filter (has_all_selected C) P else P)
               = filter (\<lambda>p. set C = {} \<or> set C \<subseteq> category_set p) P"
  proof (cases "C = []")
    case True
    then show ?thesis by simp
  next
    case False
    then have "has_all_selected C = (\<lambda>p. set C = {} \<or> set C \<subseteq> category_set p)"
      by (auto simp: fun_eq_iff has_all_selected_subset category_set_def split: option.splits)
    with False show ?thesis by simp
  qed
  have passes_fun:
    "passes (set C) s =
       (\<lambda>p. (set C = {} \<or> set C \<subseteq> category_set p) \<and>
            (trim s = [] \<or> ci_substring (trim s) (or_empty (title p))
                         \<or> ci_substring (trim s) (or_empty (description p))))"
    by (simp add: fun_eq_iff passes_def)
  show "filterProducts P C s = filter (passes (set C) s) P"
  proof (cases "trim s = []")
    case True
    then show ?thesis
      by (simp add: filterProducts_def Let_def trim_toLowerCase toLowerCase_Nil_iff cat
                    passes_fun del: length_greater_0_conv)
  next
    case False
    then show ?thesis
      by (simp add: filterProducts_def Let_def trim_toLowerCase toLowerCase_Nil_iff cat
                    passes_fun matches_search_ci del: length_greater_0_conv)
  qed
  show "filterProducts P [] [] = P"
    by (simp add: filterProducts_def Let_def trim_def toLowerCase_def)
qed

text \<open>
  Two rows under the selection \<open>shoes\<close> and the search text \<open>RED\<close> between blanks: the
  row tagged \<open>shoes-kids\<close> only is left out (labels are compared whole), the row titled
  \<open>Red Sneaker\<close> is found.
\<close>

theorem filterProducts_visible_witness:
  "filterProducts
     [blank ''a''\<lparr>title := Some ''Red Sneaker'', categories := Some [''shoes'', ''sale'']\<rparr>,
      blank ''b''\<lparr>title := Some ''Red Boot'', categories := Some [''shoes-kids'']\<rparr>]
     [''shoes''] '' RED ''
   = [blank ''a''\<lparr>title := Some ''Red Sneaker'', categories := Some [''shoes'', ''sale'']\<rparr>]"
proof -
  have ci: "ci_substring ''RED'' ''Red Sneaker''"
    by code_simp
  have tr: "trim '' RED '' = ''RED''"
    by code_simp
  show ?thesis
    using filterProducts_visible
            [of "[blank ''a''\<lparr>title := Some ''Red Sneaker'',
                              categories := Some [''shoes'', ''sale'']\<rparr>,
                  blank ''b''\<lparr>title := Some ''Red Boot'',
                              categories := Some [''shoes-kids'']\<rparr>]"
                "[''shoes'']" "'' RED ''"]
    by (simp add: passes_def tr ci category_set_def or_empty_def blank_def)
qed

section \<open>Properties of the promotion evaluator\<close>

lemma hasActivePromotion_window:
  "discount_percent p = Some d \<Longrightarrow> promotion_end p = Some e \<Longrightarrow>
     hasActivePromotion now p \<longleftrightarrow>
       0 < d \<and> (case promotion_start p of None \<Rightarrow> 0 | Some s \<Rightarrow> s) \<le> now \<and> now \<le> e"
  by (auto simp: hasActivePromotion_def Let_def)

lemma hasActivePromotion_no_discount:
  "discount_percent p = None \<Longrightarrow> \<not> hasActivePromotion now p"
  by (simp add: hasActivePromotion_def)

lemma hasActivePromotion_no_end:
  "promotion_end p = None \<Longrightarrow> \<not> hasActivePromotion now p"
  by (auto simp: hasActivePromotion_def split: option.splits)

text \<open>
  Claim C2. A product is on promotion at \<open>now\<close> exactly when its discount is present
  and greater than 0, its promotion end is present, and \<open>now\<close> lies between the
  promotion start and the promotion end, a missing start being the epoch (time value 0).
  In particular a product whose discount is 0 or missing, or whose promotion end is
  missing, is not on promotion; and from the epoch on, a missing start is no lower bound.
\<close>

theorem hasActivePromotion_iff:
  "(hasActivePromotion now p \<longleftrightarrow>
      (\<exists>d e. discount_percent p = Some d \<and> 0 < d \<and> promotion_end p = Some e \<and>
             (case promotion_start p of None \<Rightarrow> 0 | Some s \<Rightarrow> s) \<le> now \<and> now \<le> e)) \<and>
   (discount_percent p = Some 0 \<or> discount_percent p = None \<or> promotion_end p = None
      \<longrightarrow> \<not> hasActivePromotion now p) \<and>
   (promotion_start p = None \<and> 0 \<le> now \<longrightarrow>
      (hasActivePromotion now p \<longleftrightarrow>
         (\<exists>d e. discount_percent p = Some d \<and> 0 < d \<and> promotion_end p = Some e \<and> now \<le> e)))"
proof -
  have iff: "hasActivePromotion now p \<longleftrightarrow>
      (\<exists>d e. discount_percent p = Some d \<and> 0 < d \<and> promotion_end p = Some e \<and>
             (case promotion_start p of None \<Rightarrow> 0 | Some s \<Rightarrow> s) \<le> now \<and> now \<le> e)"
  proof (cases "discount_percent p")
    case None
    then show ?thesis by (simp add: hasActivePromotion_no_discount)
  next
    case (Some d)
    show ?thesis
    proof (cases "promotion_end p")
      case None
      then show ?thesis by (simp add: hasActivePromotion_no_end)
    next
      case (Some e)
      with \<open>discount_percent p = Some d\<close> show ?thesis
        by (simp add: hasActivePromotion_window)
    qed
  qed
  then have never: "discount_percent p = Some 0 \<or> discount_percent p = None \<or> promotion_end p = None
      \<longrightarrow> \<not> hasActivePromotion now p"
    by auto
  from iff have open_start: "promotion_start p = None \<and> 0 \<le> now \<longrightarrow>
      (hasActivePromotion now p \<longleftrightarrow>
         (\<exists>d e. discount_percent p = Some d \<and> 0 < d \<and> promotion_end p = Some e \<and> now \<le> e))"
    by auto
  from iff never open_start show ?thesis by blast
qed

theorem hasActivePromotion_iff_witness:
  "hasActivePromotion (10 * day)
     (blank ''p1''\<lparr>price := Some 100, discount_percent := Some 20,
                   promotion_start := Some (9 * day), promotion_end := Some (11 * day)\<rparr>) \<and>
   hasActivePromotion (10 * day)
     (blank ''p1''\<lparr>discount_percent := Some 20, promotion_end := Some (11 * day)\<rparr>) \<and>
   \<not> hasActivePromotion (10 * day)
     (blank ''p1''\<lparr>discount_percent := Some 0, promotion_end := Some (11 * day)\<rparr>) \<and>
   \<not> hasActivePromotion (10 * day) (blank ''p1''\<lparr>discount_percent := Some 20\<rparr>)"
  using hasActivePromotion_iff [of "10 * day"
          "blank ''p1''\<lparr>price := Some 100, discount_percent := Some 20,
                         promotion_start := Some (9 * day), promotion_end := Some (11 * day)\<rparr>"]
        hasActivePromotion_iff [of "10 * day"
          "blank ''p1''\<lparr>discount_percent := Some 20, promotion_end := Some (11 * day)\<rparr>"]
        hasActivePromotion_iff [of "10 * day"
          "blank ''p1''\<lparr>discount_percent := Some 0, promotion_end := Some (11 * day)\<rparr>"]
        hasActivePromotion_iff [of "10 * day" "blank ''p1''\<lparr>discount_percent := Some 20\<rparr>"]
  by (simp add: blank_def day_def)

text \<open>
  Claim C3, as the code has it. The discounted price is absent whenever the product is
  not on promotion, or its price is missing or 0; it is \<open>price * (1 - discount / 100)\<close>
  whenever the product is on promotion and its price is present and not 0.
\<close>

theorem getDiscountedPrice_cases:
  "(\<not> hasActivePromotion now p \<or> price p = None \<or> price p = Some 0
      \<longrightarrow> getDiscountedPrice now p = None) \<and>
   (hasActivePromotion now p \<and> price p = Some pr \<and> pr \<noteq> 0
      \<longrightarrow> (\<exists>d. discount_percent p = Some d \<and>
               getDiscountedPrice now p = Some (pr * (1 - of_int d / 100))))"
proof -
  have absent: "getDiscountedPrice now p = None"
    if "\<not> hasActivePromotion now p \<or> price p = None \<or> price p = Some 0"
    using that by (auto simp: getDiscountedPrice_def split: option.splits)
  have present: "\<exists>d. discount_percent p = Some d \<and>
                   getDiscountedPrice now p = Some (pr * (1 - of_int d / 100))"
    if on: "hasActivePromotion now p" and pr: "price p = Some pr" "pr \<noteq> 0"
  proof -
    from on obtain d where d: "discount_percent p = Some d"
      using hasActivePromotion_no_discount [of p now] by (cases "discount_percent p") auto
    with on pr have "getDiscountedPrice now p = Some (pr * (1 - of_int d / 100))"
      by (simp add: getDiscountedPrice_def)
    with d show ?thesis by blast
  qed
  from absent present show ?thesis by blast
qed

theorem getDiscountedPrice_cases_witness:
  "getDiscountedPrice (10 * day)
     (blank ''p1''\<lparr>price := Some 100, discount_percent := Some 20,
                   promotion_start := Some (9 * day), promotion_end := Some (11 * day)\<rparr>)
     = Some 80 \<and>
   getDiscountedPrice (10 * day)
     (blank ''p1''\<lparr>discount_percent := Some 20, promotion_end := Some (11 * day)\<rparr>) = None"
  using getDiscountedPrice_cases [of "10 * day"
          "blank ''p1''\<lparr>price := Some 100, discount_percent := Some 20,
                         promotion_start := Some (9 * day), promotion_end := Some (11 * day)\<rparr>"
          100]
        getDiscountedPrice_cases [of "10 * day"
          "blank ''p1''\<lparr>discount_percent := Some 20, promotion_end := Some (11 * day)\<rparr>"]
  by (simp add: blank_def day_def hasActivePromotion_def)

text \<open>
  Claim C3 as stated fails at the price 0: the product is on promotion and its price is
  set, yet no discounted price is returned, where the claim gives \<open>0 * (1 - 20 / 100)\<close>.
\<close>

theorem getDiscountedPrice_zero_price:
  "hasActivePromotion (10 * day)
     (blank ''p1''\<lparr>price := Some 0, discount_percent := Some 20,
                   promotion_end := Some (11 * day)\<rparr>) \<and>
   price (blank ''p1''\<lparr>price := Some 0, discount_percent := Some 20,
                        promotion_end := Some (11 * day)\<rparr>) = Some 0 \<and>
   getDiscountedPrice (10 * day)
     (blank ''p1''\<lparr>price := Some 0, discount_percent := Some 20,
                   promotion_end := Some (11 * day)\<rparr>) = None \<and>
   getDiscountedPrice (10 * day)
     (blank ''p1''\<lparr>price := Some 0, discount_percent := Some 20,
                   promotion_end := Some (11 * day)\<rparr>) \<noteq> Some (0 * (1 - 20 / 100))"
  by (simp add: getDiscountedPrice_def hasActivePromotion_def blank_def day_def)

text \<open>
  Claim C4, as the code has it. A product whose discount is missing, 0 or negative, or
  whose promotion end is missing, is never on promotion. The evaluator has no upper
  bound on the discount: every positive discount, above 100 too, counts alike.
\<close>

theorem hasActivePromotion_never:
  "((case discount_percent p of None \<Rightarrow> True | Some d \<Rightarrow> d \<le> 0) \<or> promotion_end p = None
      \<longrightarrow> \<not> hasActivePromotion now p) \<and>
   (0 < d \<and> 0 < d'
      \<longrightarrow> hasActivePromotion now (p\<lparr>discount_percent := Some d\<rparr>)
          = hasActivePromotion now (p\<lparr>discount_percent := Some d'\<rparr>))"
proof -
  have never: "\<not> hasActivePromotion now p"
    if "(case discount_percent p of None \<Rightarrow> True | Some d \<Rightarrow> d \<le> 0) \<or> promotion_end p = None"
    using that
  proof
    assume "case discount_percent p of None \<Rightarrow> True | Some d \<Rightarrow> d \<le> 0"
    then show ?thesis
      by (cases "discount_percent p") (simp_all add: hasActivePromotion_def)
  next
    assume "promotion_end p = None"
    then show ?thesis by (rule hasActivePromotion_no_end)
  qed
  have alike: "hasActivePromotion now (p\<lparr>discount_percent := Some d\<rparr>)
                 = hasActivePromotion now (p\<lparr>discount_percent := Some d'\<rparr>)"
    if "0 < d \<and> 0 < d'"
    using that by (auto simp: hasActivePromotion_def Let_def split: option.splits)
  from never alike show ?thesis by blast
qed

theorem hasActivePromotion_never_witness:
  "\<not> hasActivePromotion (10 * day)
      (blank ''p1''\<lparr>discount_percent := Some (- 5), promotion_end := Some (11 * day)\<rparr>) \<and>
   \<not> hasActivePromotion (10 * day) (blank ''p1''\<lparr>discount_percent := Some 20\<rparr>) \<and>
   hasActivePromotion (10 * day)
     (blank ''p1''\<lparr>promotion_end := Some (11 * day), discount_percent := Some 150\<rparr>)
   = hasActivePromotion (10 * day)
     (blank ''p1''\<lparr>promotion_end := Some (11 * day), discount_percent := Some 20\<rparr>)"
  using hasActivePromotion_never [of
          "blank ''p1''\<lparr>discount_percent := Some (- 5), promotion_end := Some (11 * day)\<rparr>"
          "10 * day"]
        hasActivePromotion_never [of "blank ''p1''\<lparr>discount_percent := Some 20\<rparr>" "10 * day"]
        hasActivePromotion_never [of "blank ''p1''\<lparr>promotion_end := Some (11 * day)\<rparr>"
          "10 * day" 150 20]
  by (simp add: blank_def day_def)

text \<open>
  Claim C4 as stated fails above 100: a discount of 150 lies outside the interval from 0
  (exclusive) to 100 (inclusive), the promotion end is set, and the product is on promotion.
\<close>

theorem hasActivePromotion_above_100:
  "\<not> (0 < (150 :: int) \<and> (150 :: int) \<le> 100) \<and>
   discount_percent
     (blank ''p1''\<lparr>discount_percent := Some 150, promotion_end := Some (11 * day)\<rparr>)
     = Some 150 \<and>
   hasActivePromotion (10 * day)
     (blank ''p1''\<lparr>discount_percent := Some 150, promotion_end := Some (11 * day)\<rparr>)"
  by (simp add: hasActivePromotion_def blank_def day_def)

section \<open>Properties of the media rule and of the modal\<close>

lemma find_shop1: "find_product ''x'' (allProducts shop1) = Some two_media"
  by (simp add: find_product_def shop1_def two_media_def blank_def)

lemma images_two_media: "product_images two_media = [''a.jpg'', ''b.jpg'']"
  by (simp add: product_images_def two_media_def blank_def)

lemma product_images_getProductMedia: "product_images p = getProductMedia p"
  by (auto simp: product_images_def getProductMedia_def split: option.splits list.splits)

text \<open>
  Claim C10. The media sequence of a product follows a fixed fallback rule: it is
  \<open>image_urls\<close> when that is a non-empty array, else the one-element sequence of
  \<open>image_url\<close> when that is set (present and not the empty string), else empty. The
  expression written out in the cards and modals computes the same sequence as
  \<open>getProductMedia\<close>. A card and a modal show the first media item, and the fixed
  placeholder when the sequence is empty.
\<close>

theorem media_fallback:
  "getProductMedia p =
     (case image_urls p of
        None \<Rightarrow> (case truthy (image_url p) of None \<Rightarrow> [] | Some u \<Rightarrow> [u])
      | Some us \<Rightarrow> if us \<noteq> [] then us
                  else (case truthy (image_url p) of None \<Rightarrow> [] | Some u \<Rightarrow> [u])) \<and>
   product_images p = getProductMedia p \<and>
   card_main_image (renderProductCard now p c) = first_or_placeholder (getProductMedia p) \<and>
   (getProductMedia p = [] \<longrightarrow>
      first_or_placeholder (getProductMedia p) = placeholder \<and> modal_mainMedia p = placeholder) \<and>
   (find_product productId (allProducts st) = Some p \<longrightarrow>
      (\<exists>b. modalBody (openProductModal now productId st) = Some b \<and>
           main_src b = first_or_placeholder (getProductMedia p)) \<and>
      (\<exists>b. modalBody (openProductModal_tracking productId st) = Some b \<and>
           main_src b = first_or_placeholder (getProductMedia p)))"
proof -
  have fallback: "getProductMedia p =
     (case image_urls p of
        None \<Rightarrow> (case truthy (image_url p) of None \<Rightarrow> [] | Some u \<Rightarrow> [u])
      | Some us \<Rightarrow> if us \<noteq> [] then us
                  else (case truthy (image_url p) of None \<Rightarrow> [] | Some u \<Rightarrow> [u]))"
    by (auto simp: getProductMedia_def truthy_def split: option.splits list.splits)
  have card: "card_main_image (renderProductCard now p c) = first_or_placeholder (getProductMedia p)"
    by (simp add: renderProductCard_def Let_def product_images_getProductMedia)
  have empty: "getProductMedia p = [] \<longrightarrow>
      first_or_placeholder (getProductMedia p) = placeholder \<and> modal_mainMedia p = placeholder"
    by (simp add: first_or_placeholder_def modal_mainMedia_def)
  have modal: "find_product productId (allProducts st) = Some p \<longrightarrow>
      (\<exists>b. modalBody (openProductModal now productId st) = Some b \<and>
           main_src b = first_or_placeholder (getProductMedia p)) \<and>
      (\<exists>b. modalBody (openProductModal_tracking productId st) = Some b \<and>
           main_src b = first_or_placeholder (getProductMedia p))"
    by (simp add: openProductModal_def openProductModal_tracking_def Let_def
                  product_images_getProductMedia)
  from fallback card empty modal show ?thesis
    using product_images_getProductMedia by blast
qed

theorem media_fallback_witness:
  "getProductMedia (blank ''y''\<lparr>image_urls := Some [], image_url := Some ''old.jpg''\<rparr>)
     = [''old.jpg''] \<and>
   getProductMedia two_media = [''a.jpg'', ''b.jpg''] \<and>
   getProductMedia (blank ''y'') = [] \<and>
   card_main_image (renderProductCard 0 (blank ''y'') False) = placeholder \<and>
   modal_mainMedia (blank ''y'') = placeholder \<and>
   (\<exists>b. modalBody (openProductModal 0 ''x'' shop1) = Some b \<and> main_src b = ''a.jpg'')"
proof -
  have old: "getProductMedia (blank ''y''\<lparr>image_urls := Some [], image_url := Some ''old.jpg''\<rparr>)
     = [''old.jpg'']"
    using media_fallback [of "blank ''y''\<lparr>image_urls := Some [], image_url := Some ''old.jpg''\<rparr>"]
    by (simp add: blank_def truthy_def)
  have two: "getProductMedia two_media = [''a.jpg'', ''b.jpg'']"
    using media_fallback [of two_media] by (simp add: images_two_media)
  have none: "getProductMedia (blank ''y'') = []"
    using media_fallback [of "blank ''y''"] by (simp add: blank_def truthy_def)
  have shown: "card_main_image (renderProductCard 0 (blank ''y'') False) = placeholder"
    "modal_mainMedia (blank ''y'') = placeholder"
    using media_fallback [of "blank ''y''" 0 False] none by simp_all
  have modal: "\<exists>b. modalBody (openProductModal 0 ''x'' shop1) = Some b \<and> main_src b = ''a.jpg''"
    using media_fallback [of two_media 0 False "''x''" shop1] find_shop1 two
    by (simp add: first_or_placeholder_def)
  from old two none shown modal show ?thesis by simp
qed

text \<open>
  Claim C7. Opening a product id that no product of the collection has changes nothing:
  the whole state, the modal with it, is as before, and the click-tracking variant sends
  no request.
\<close>

theorem open_missing_noop:
  "productId \<notin> product_id ` set (allProducts st) \<Longrightarrow>
     openProductModal now productId st = st \<and> openProductModal_tracking productId st = st"
proof -
  assume "productId \<notin> product_id ` set (allProducts st)"
  then have "find_product productId (allProducts st) = None"
    by (auto simp: find_product_def find_None_iff)
  then show ?thesis
    by (simp add: openProductModal_def openProductModal_tracking_def)
qed

theorem open_missing_noop_witness:
  "openProductModal 0 ''missing-id'' shop1 = shop1 \<and>
   openProductModal_tracking ''missing-id'' shop1 = shop1 \<and>
   modal_active (openProductModal 0 ''missing-id'' shop1) = False \<and>
   modal_active (openProductModal 0 ''x'' shop1) = True"
proof -
  have "''missing-id'' \<notin> product_id ` set (allProducts shop1)"
    by (simp add: shop1_def two_media_def blank_def)
  from open_missing_noop [OF this, of 0] show ?thesis
    by (simp add: shop1_def openProductModal_def find_product_def two_media_def blank_def Let_def)
qed










lemma find_product_split:
  "find_product productId ps = Some p \<Longrightarrow>
     \<exists>pre post. ps = pre @ p # post \<and> product_id p = productId \<and>
       (\<forall>q \<in> set pre. product_id q \<noteq> productId) \<and>
       increment_click productId ps
         = pre @ p\<lparr>click_count := Some ((case click_count p of None \<Rightarrow> 0 | Some c \<Rightarrow> c) + 1)\<rparr> # post"
proof (induction ps)
  case Nil
  then show ?case by (simp add: find_product_def)
next
  case (Cons a ps)
  show ?case
  proof (cases "product_id a = productId")
    case True
    with Cons.prems have "a = p" by (simp add: find_product_def)
    with True show ?thesis by (intro exI [of _ "[]"] exI [of _ ps]) simp
  next
    case False
    with Cons.prems have "find_product productId ps = Some p" by (simp add: find_product_def)
    from Cons.IH [OF this] obtain pre post where
      "ps = pre @ p # post" "product_id p = productId" "\<forall>q \<in> set pre. product_id q \<noteq> productId"
      "increment_click productId ps
         = pre @ p\<lparr>click_count := Some ((case click_count p of None \<Rightarrow> 0 | Some c \<Rightarrow> c) + 1)\<rparr> # post"
      by blast
    with False show ?thesis
      by (intro exI [of _ "a # pre"] exI [of _ post]) simp
  qed
qed

text \<open>
  Claim C9. In the click-tracking variant, opening a product of the collection sends one
  increment request and leaves the collection as it is. When the request completes, with
  any response status, the cached click count of that product (the first with that id)
  goes up by exactly one, nothing else in the collection changes and nothing is logged;
  the next opening shows the advanced count. When the request throws, the collection is
  unchanged and one line is logged.
\<close>

theorem click_count_local_increment:
  "find_product productId (allProducts st) = Some p \<Longrightarrow>
   in_flight (openProductModal_tracking productId st) = in_flight st @ [productId] \<and>
   allProducts (openProductModal_tracking productId st) = allProducts st \<and>
   (\<exists>pre post. allProducts st = pre @ p # post \<and>
      (\<forall>q \<in> set pre. product_id q \<noteq> productId) \<and>
      allProducts (trackProductClick_resume productId (Response status)
                     (openProductModal_tracking productId st))
        = pre @ p\<lparr>click_count := Some ((case click_count p of None \<Rightarrow> 0 | Some c \<Rightarrow> c) + 1)\<rparr> # post) \<and>
   console (trackProductClick_resume productId (Response status)
              (openProductModal_tracking productId st)) = console st \<and>
   (\<exists>b. modalBody (openProductModal_tracking productId
              (trackProductClick_resume productId (Response status)
                 (openProductModal_tracking productId st))) = Some b \<and>
        modal_views b = Some ((case click_count p of None \<Rightarrow> 0 | Some c \<Rightarrow> c) + 1)) \<and>
   allProducts (trackProductClick_resume productId (Rejected err)
                  (openProductModal_tracking productId st)) = allProducts st \<and>
   console (trackProductClick_resume productId (Rejected err)
              (openProductModal_tracking productId st))
     = console st @ [''Click tracking failed (not critical): '' @ err]"
proof -
  assume found: "find_product productId (allProducts st) = Some p"
  let ?p' = "p\<lparr>click_count := Some ((case click_count p of None \<Rightarrow> 0 | Some c \<Rightarrow> c) + 1)\<rparr>"
  let ?st = "openProductModal_tracking productId st"
  from find_product_split [OF found] obtain pre post where
    split: "allProducts st = pre @ p # post" "product_id p = productId"
      "\<forall>q \<in> set pre. product_id q \<noteq> productId"
      "increment_click productId (allProducts st) = pre @ ?p' # post"
    by blast
  have sent: "in_flight ?st = in_flight st @ [productId]"
    and same: "allProducts ?st = allProducts st"
    and log: "console ?st = console st"
    using found
    by (simp_all add: openProductModal_tracking_def trackProductClick_send_def Let_def)
  have resp: "allProducts (trackProductClick_resume productId (Response status) s)
                = increment_click productId (allProducts s)" for s
    by (simp add: trackProductClick_resume_def Let_def)
  have counted: "allProducts (trackProductClick_resume productId (Response status) ?st)
                   = pre @ ?p' # post"
    by (simp only: resp same split(4))
  have quiet: "console (trackProductClick_resume productId (Response status) ?st) = console st"
    by (simp add: trackProductClick_resume_def Let_def log)
  have found': "find_product productId (pre @ ?p' # post) = Some ?p'"
    using split(2,3) by (induction pre) (simp_all add: find_product_def)
  have shown: "\<exists>b. modalBody (openProductModal_tracking productId
              (trackProductClick_resume productId (Response status) ?st)) = Some b \<and>
        modal_views b = Some ((case click_count p of None \<Rightarrow> 0 | Some c \<Rightarrow> c) + 1)"
    using found'
    by (simp add: openProductModal_tracking_def [of productId "trackProductClick_resume _ _ _"]
                  counted Let_def)
  have rej: "allProducts (trackProductClick_resume productId (Rejected err) ?st) = allProducts st"
    "console (trackProductClick_resume productId (Rejected err) ?st)
       = console st @ [''Click tracking failed (not critical): '' @ err]"
    by (simp_all add: trackProductClick_resume_def Let_def same log)
  from split(1,3) counted have incr: "\<exists>pre post. allProducts st = pre @ p # post \<and>
      (\<forall>q \<in> set pre. product_id q \<noteq> productId) \<and>
      allProducts (trackProductClick_resume productId (Response status) ?st) = pre @ ?p' # post"
    by blast
  from sent same incr quiet shown rej show ?thesis
    by simp
qed

theorem click_count_local_increment_witness:
  "in_flight (openProductModal_tracking ''x'' shop1) = [''x''] \<and>
   allProducts (trackProductClick_resume ''x'' (Response 403)
                  (openProductModal_tracking ''x'' shop1))
     = [two_media\<lparr>click_count := Some 1\<rparr>] \<and>
   allProducts (trackProductClick_resume ''x'' (Rejected ''offline'')
                  (openProductModal_tracking ''x'' shop1)) = [two_media] \<and>
   console (trackProductClick_resume ''x'' (Rejected ''offline'')
              (openProductModal_tracking ''x'' shop1))
     = [''Click tracking failed (not critical): offline'']"
proof -
  have products: "allProducts shop1 = [two_media]" and log: "console shop1 = []"
    and none: "in_flight shop1 = []"
    by (simp_all add: shop1_def)
  have "increment_click ''x'' [two_media] = [two_media\<lparr>click_count := Some 1\<rparr>]"
    by (simp add: two_media_def blank_def)
  moreover have "allProducts (trackProductClick_resume ''x'' (Response 403)
                     (openProductModal_tracking ''x'' shop1))
                   = increment_click ''x'' [two_media]"
    using click_count_local_increment [OF find_shop1, where status = 403]
    by (simp add: trackProductClick_resume_def Let_def products)
  ultimately show ?thesis
    using click_count_local_increment [OF find_shop1, where err = "''offline''"]
    by (simp add: products log none)
qed

section \<open>Properties of the Recent section\<close>













section \<open>Properties of the category counts\<close>

lemma foldl_products:
  "foldl (\<lambda>counts p. case categories p of
                         None \<Rightarrow> counts
                       | Some cats \<Rightarrow> foldl count_category counts cats) acc ps
     = foldl count_category acc (all_labels ps)"
  by (induction ps arbitrary: acc) (simp_all add: all_labels_def split: option.splits)

lemma categoryCounts_flat: "categoryCounts ps = foldl count_category [] (all_labels ps)"
  by (simp add: categoryCounts_def foldl_products)

lemma keys_count_category:
  "map fst (count_category kvs c)
     = (if c \<in> set (map fst kvs) then map fst kvs else map fst kvs @ [c])"
  by (induction kvs c rule: count_category.induct) auto

lemma keys_foldl_count_category:
  "map fst (foldl count_category acc ls)
     = foldl (\<lambda>seen l. if l \<in> set seen then seen else seen @ [l]) (map fst acc) ls"
  by (induction ls arbitrary: acc) (simp_all add: keys_count_category)

lemma keys_categoryCounts: "map fst (categoryCounts ps) = first_seen (all_labels ps)"
  by (simp add: categoryCounts_flat keys_foldl_count_category first_seen_def)

lemma seen_step:
  "distinct seen \<Longrightarrow>
     distinct (foldl (\<lambda>seen l. if l \<in> set seen then seen else seen @ [l]) seen ls) \<and>
     set (foldl (\<lambda>seen l. if l \<in> set seen then seen else seen @ [l]) seen ls) = set seen \<union> set ls"
  by (induction ls arbitrary: seen) auto

lemma first_seen_distinct: "distinct (first_seen ls)"
  and first_seen_set: "set (first_seen ls) = set ls"
  using seen_step [of "[]" ls] by (simp_all add: first_seen_def)

lemma count_category_values:
  assumes "distinct (map fst kvs)"
    and "\<forall>(l, n) \<in> set kvs. n = f l"
    and "c \<notin> fst ` set kvs \<longrightarrow> f c = 0"
  shows "\<forall>(l, n) \<in> set (count_category kvs c). n = (if l = c then f l + 1 else f l)"
  using assms
proof (induction kvs c rule: count_category.induct)
  case (1 cat)
  then show ?case by simp
next
  case (2 k n kvs cat)
  show ?case
  proof (cases "k = cat")
    case True
    with "2.prems" show ?thesis by (fastforce simp: image_iff)
  next
    case False
    with "2.prems" have "\<forall>(l, n) \<in> set (count_category kvs cat). n = (if l = cat then f l + 1 else f l)"
      by (intro "2.IH") auto
    with False "2.prems" show ?thesis by auto
  qed
qed

lemma tally_values:
  "\<forall>(l, n) \<in> set (foldl count_category [] ls). n = count_list ls l"
proof (induction ls rule: rev_induct)
  case Nil
  then show ?case by simp
next
  case (snoc c ls)
  let ?T = "foldl count_category [] ls"
  have keys: "map fst ?T = first_seen ls"
    by (simp add: keys_foldl_count_category first_seen_def)
  have d: "distinct (map fst ?T)" by (simp add: keys first_seen_distinct)
  have z: "c \<notin> fst ` set ?T \<longrightarrow> count_list ls c = 0"
    using first_seen_set [of ls] keys by (metis count_notin set_map)
  from count_category_values [OF d snoc.IH z]
  show ?case by (auto split: if_splits)
qed

lemma sum_count_category: "sum_list (map snd (count_category kvs c)) = sum_list (map snd kvs) + 1"
  by (induction kvs c rule: count_category.induct) auto

lemma tally_sum: "sum_list (map snd (foldl count_category acc ls)) = sum_list (map snd acc) + length ls"
  by (induction ls arbitrary: acc) (simp_all add: sum_count_category)

lemma map_insort_key: "map g (insort_key (\<lambda>x. f (g x)) x xs) = insort_key f (g x) (map g xs)"
  by (induction xs) simp_all

lemma map_sort_key: "map g (sort_key (\<lambda>x. f (g x)) xs) = sort_key f (map g xs)"
  by (induction xs) (simp_all add: map_insort_key)

lemma keys_Object_entries: "map fst (Object_entries obj) = key_order (map fst obj)"
proof -
  have a: "(\<lambda>(k, v). index_value k) = (\<lambda>e. index_value (fst e))"
    and b: "(\<lambda>(k, v). is_array_index k) = (\<lambda>e. is_array_index (fst e))"
    and c: "(\<lambda>(k, v). \<not> is_array_index k) = (\<lambda>e. \<not> is_array_index (fst e))"
    by (simp_all add: fun_eq_iff)
  show ?thesis
    unfolding Object_entries_def key_order_def a b c
    by (simp add: map_sort_key filter_map o_def)
qed

lemma mset_Object_entries: "mset (Object_entries obj) = mset obj"
  by (simp add: Object_entries_def case_prod_unfold)

lemma key_order_plain: "\<forall>k \<in> set ks. \<not> is_array_index k \<Longrightarrow> key_order ks = ks"
proof -
  assume plain: "\<forall>k \<in> set ks. \<not> is_array_index k"
  then have "filter is_array_index ks = []" "filter (\<lambda>k. \<not> is_array_index k) ks = ks"
    by (simp_all add: filter_empty_conv filter_id_conv)
  then show ?thesis by (simp add: key_order_def)
qed

lemma keys_of_filter:
  "\<forall>e \<in> set xs. snd e = f (fst e) \<Longrightarrow>
     map fst (filter (\<lambda>e. snd e = k) xs) = filter (\<lambda>l. f l = k) (map fst xs)"
  by (induction xs) auto

lemma distinct_count_list: "distinct xs \<Longrightarrow> count_list xs x = (if x \<in> set xs then 1 else 0)"
  by (induction xs) auto

lemma count_products:
  "\<forall>p \<in> set ps. distinct (case categories p of None \<Rightarrow> [] | Some cs \<Rightarrow> cs) \<Longrightarrow>
     count_list (all_labels ps) l = length (filter (\<lambda>p. l \<in> category_set p) ps)"
proof (induction ps)
  case Nil
  then show ?case by (simp add: all_labels_def)
next
  case (Cons p ps)
  have split: "all_labels (p # ps) = (case categories p of None \<Rightarrow> [] | Some cs \<Rightarrow> cs) @ all_labels ps"
    by (simp add: all_labels_def)
  have one: "count_list (case categories p of None \<Rightarrow> [] | Some cs \<Rightarrow> cs) l
               = (if l \<in> category_set p then 1 else 0)"
    using Cons.prems by (auto simp: category_set_def distinct_count_list split: option.splits)
  from Cons show ?case by (simp add: split one)
qed

lemma descending_counts:
  "sorted_wrt (\<lambda>a b. snd b \<le> snd a) (sort_key (\<lambda>(name, n). - int n) (xs :: (string \<times> nat) list))"
proof -
  have "sorted (map (\<lambda>(name, n). - int n) (sort_key (\<lambda>(name, n). - int n) xs))"
    by (rule sorted_sort_key)
  then show ?thesis by (simp add: sorted_map case_prod_unfold)
qed

lemma descending_stable:
  "filter (\<lambda>e. snd e = k) (sort_key (\<lambda>(name, n). - int n) (xs :: (string \<times> nat) list))
     = filter (\<lambda>e. snd e = k) xs"
proof -
  have "filter (\<lambda>e. (case e of (name, n) \<Rightarrow> - int n) = - int k)
          (sort_key (\<lambda>(name, n). - int n) xs)
        = filter (\<lambda>e. (case e of (name, n) \<Rightarrow> - int n) = - int k) xs"
    by (rule sort_key_stable)
  then show ?thesis by (simp add: case_prod_unfold)
qed

text \<open>
  Claim C5, as the code has it; labels that are inherited property names of a plain
  object are set aside. \<open>loadCategories\<close> yields one entry per distinct label of the
  collection. The count of a label is the number of its occurrences in the products'
  category arrays, which is the number of products that have the label when no product
  lists a label twice; the counts sum to the total number of (product, category)
  memberships. The entries are sorted by count descending. Entries of equal count stand
  in the enumeration order of the counting object: labels that are array indices first,
  in ascending numeric order, then the other labels in first-seen order; where no label
  is an array index, ties are in first-seen order.
\<close>

theorem category_counts:
  "set (all_labels ps) \<inter> set Object_prototype_keys = {} \<Longrightarrow>
   \<exists>r. loadCategories ps = Some r \<and>
       distinct (map fst r) \<and> set (map fst r) = set (all_labels ps) \<and>
       (\<forall>(l, n) \<in> set r. n = count_list (all_labels ps) l) \<and>
       ((\<forall>p \<in> set ps. distinct (case categories p of None \<Rightarrow> [] | Some cs \<Rightarrow> cs)) \<longrightarrow>
          (\<forall>(l, n) \<in> set r. n = length (filter (\<lambda>p. l \<in> category_set p) ps))) \<and>
       sum_list (map snd r) = length (all_labels ps) \<and>
       sorted_wrt (\<lambda>a b. snd b \<le> snd a) r \<and>
       (\<forall>k. map fst (filter (\<lambda>e. snd e = k) r)
              = filter (\<lambda>l. count_list (all_labels ps) l = k) (key_order (first_seen (all_labels ps)))) \<and>
       ((\<forall>l \<in> set (all_labels ps). \<not> is_array_index l) \<longrightarrow>
          (\<forall>k. map fst (filter (\<lambda>e. snd e = k) r)
                 = filter (\<lambda>l. count_list (all_labels ps) l = k) (first_seen (all_labels ps))))"
proof -
  assume own: "set (all_labels ps) \<inter> set Object_prototype_keys = {}"
  define ls where "ls = all_labels ps"
  define T where "T = categoryCounts ps"
  define E where "E = Object_entries T"
  define r where "r = sort_key (\<lambda>(name, n). - int n) E"
  have run: "loadCategories ps = Some r"
    using own by (auto simp: loadCategories_def list_ex_iff r_def E_def T_def)
  have setE: "set E = set T"
    unfolding E_def by (rule mset_eq_setD [OF mset_Object_entries])
  have perm: "mset r = mset T"
    by (simp add: r_def E_def mset_Object_entries)
  have keysT: "map fst T = first_seen ls"
    by (simp add: T_def ls_def keys_categoryCounts)
  have "mset (map fst r) = mset (map fst T)"
    using perm by (metis mset_map)
  then have keys_perm: "mset (map fst r) = mset (first_seen ls)"
    by (simp add: keysT)
  have dist: "distinct (map fst r)"
    using keys_perm first_seen_distinct [of ls] by (metis mset_eq_imp_distinct_iff)
  have keys: "set (map fst r) = set ls"
    using mset_eq_setD [OF keys_perm] by (simp only: first_seen_set)
  have vals_T: "\<forall>(l, n) \<in> set T. n = count_list ls l"
    using tally_values [of ls] by (simp add: T_def ls_def categoryCounts_flat)
  have setr: "set r = set E"
    by (simp add: r_def)
  have vals: "\<forall>(l, n) \<in> set r. n = count_list ls l"
    using vals_T by (simp only: setr setE)
  have prods: "\<forall>(l, n) \<in> set r. n = length (filter (\<lambda>p. l \<in> category_set p) ps)"
    if "\<forall>p \<in> set ps. distinct (case categories p of None \<Rightarrow> [] | Some cs \<Rightarrow> cs)"
    using vals count_products [OF that] by (simp add: ls_def)
  have "sum_mset (mset (map snd r)) = sum_mset (mset (map snd T))"
    using perm by (metis mset_map)
  then have "sum_list (map snd r) = sum_list (map snd T)"
    by (simp only: sum_mset_sum_list)
  then have total: "sum_list (map snd r) = length ls"
    using tally_sum [of "[]" ls] by (simp add: T_def ls_def categoryCounts_flat)
  have desc: "sorted_wrt (\<lambda>a b. snd b \<le> snd a) r"
    unfolding r_def by (rule descending_counts)
  have vals_E: "\<forall>e \<in> set E. snd e = count_list ls (fst e)"
    using vals_T by (auto simp: setE)
  have keysE: "map fst E = key_order (first_seen ls)"
    by (simp add: E_def keys_Object_entries keysT)
  have ties: "map fst (filter (\<lambda>e. snd e = k) r)
                = filter (\<lambda>l. count_list ls l = k) (key_order (first_seen ls))" for k
  proof -
    have "map fst (filter (\<lambda>e. snd e = k) r) = map fst (filter (\<lambda>e. snd e = k) E)"
      unfolding r_def by (simp only: descending_stable)
    also have "\<dots> = filter (\<lambda>l. count_list ls l = k) (map fst E)"
      by (rule keys_of_filter [OF vals_E])
    finally show ?thesis by (simp only: keysE)
  qed
  have plain: "map fst (filter (\<lambda>e. snd e = k) r)
                = filter (\<lambda>l. count_list ls l = k) (first_seen ls)"
    if "\<forall>l \<in> set ls. \<not> is_array_index l" for k
  proof -
    from that have "key_order (first_seen ls) = first_seen ls"
      by (intro key_order_plain) (simp add: first_seen_set)
    with ties [of k] show ?thesis by simp
  qed
  show ?thesis
    unfolding ls_def [symmetric]
  proof (intro exI [of _ r] conjI impI allI)
    show "loadCategories ps = Some r" by (rule run)
    show "distinct (map fst r)" by (rule dist)
    show "set (map fst r) = set ls" by (rule keys)
    show "\<forall>(l, n) \<in> set r. n = count_list ls l" by (rule vals)
    show "\<forall>(l, n) \<in> set r. n = length (filter (\<lambda>p. l \<in> category_set p) ps)"
      if "\<forall>p \<in> set ps. distinct (case categories p of None \<Rightarrow> [] | Some cs \<Rightarrow> cs)"
      using that by (rule prods)
    show "sum_list (map snd r) = length ls" by (rule total)
    show "sorted_wrt (\<lambda>a b. snd b \<le> snd a) r" by (rule desc)
    show "map fst (filter (\<lambda>e. snd e = k) r)
            = filter (\<lambda>l. count_list ls l = k) (key_order (first_seen ls))" for k
      by (rule ties)
    show "map fst (filter (\<lambda>e. snd e = k) r)
            = filter (\<lambda>l. count_list ls l = k) (first_seen ls)"
      if "\<forall>l \<in> set ls. \<not> is_array_index l" for k
      using that by (rule plain)
  qed
qed

lemma labels_tagged: "all_labels tagged = [''toys'', ''sale'', ''sale'', ''books'']"
  by (simp add: all_labels_def tagged_def blank_def)

lemma run_tagged: "loadCategories tagged = Some [(''sale'', 2), (''toys'', 1), (''books'', 1)]"
  by code_simp

theorem category_counts_witness:
  "loadCategories tagged = Some [(''sale'', 2), (''toys'', 1), (''books'', 1)] \<and>
   sum_list (map snd [(''sale'', 2 :: nat), (''toys'', 1), (''books'', 1)]) = length (all_labels tagged) \<and>
   first_seen (all_labels tagged) = [''toys'', ''sale'', ''books'']"
proof -
  have own: "set (all_labels tagged) \<inter> set Object_prototype_keys = {}"
    by (simp add: labels_tagged Object_prototype_keys_def)
  from category_counts [OF own] run_tagged
  have "sum_list (map snd [(''sale'', 2 :: nat), (''toys'', 1), (''books'', 1)])
          = length (all_labels tagged)"
    by auto
  moreover have "first_seen (all_labels tagged) = [''toys'', ''sale'', ''books'']"
    by (simp add: labels_tagged first_seen_def)
  ultimately show ?thesis using run_tagged by simp
qed

text \<open>
  Claim C5 as stated fails for a label that is an array index: \<open>b\<close> is seen before
  \<open>1\<close>, both have the count 1, and \<open>1\<close> comes first.
\<close>

theorem category_ties_index_first:
  "loadCategories numbered = Some [(''1'', 1), (''b'', 1)] \<and>
   first_seen (all_labels numbered) = [''b'', ''1'']"
proof -
  have "loadCategories numbered = Some [(''1'', 1), (''b'', 1)]"
    by code_simp
  moreover have "first_seen (all_labels numbered) = [''b'', ''1'']"
    by (simp add: all_labels_def numbered_def blank_def first_seen_def)
  ultimately show ?thesis by simp
qed

end
